theory Spec2Isabelle
  imports Complex_Main
begin

section \<open>JavaScript numbers\<close>

text \<open>
  Every quantity of \<^verbatim>\<open>src/App.jsx\<close> is a JavaScript number. The model keeps the
  special values of the arithmetic (the two infinities and NaN) and the rules by which
  they arise and propagate, because the control flow of \<^verbatim>\<open>irr\<close> and of the payback
  search depends on them. Finite values are exact reals: rounding to 53 bits, overflow,
  underflow and the sign of zero are not modelled. Every zero divisor this program can
  meet is the result of a sum or a difference, or of \<^verbatim>\<open>Math.pow\<close> on such a value,
  hence a positive zero, which is how division by zero is read below.
\<close>

datatype jsnum = Fin real | PInf | NInf | NaN

text \<open>The infinity carrying the sign of a real; NaN for zero (as in \<^verbatim>\<open>0 * Infinity\<close>).\<close>

definition signed_inf :: "real \<Rightarrow> jsnum" where
  "signed_inf s = (if 0 < s then PInf else if s < 0 then NInf else NaN)"

fun js_neg :: "jsnum \<Rightarrow> jsnum" where
  "js_neg (Fin x) = Fin (- x)"
| "js_neg PInf = NInf"
| "js_neg NInf = PInf"
| "js_neg NaN = NaN"

fun js_add :: "jsnum \<Rightarrow> jsnum \<Rightarrow> jsnum" where
  "js_add (Fin x) (Fin y) = Fin (x + y)"
| "js_add NaN _ = NaN"
| "js_add _ NaN = NaN"
| "js_add PInf NInf = NaN"
| "js_add NInf PInf = NaN"
| "js_add PInf _ = PInf"
| "js_add _ PInf = PInf"
| "js_add NInf _ = NInf"
| "js_add _ NInf = NInf"

fun js_mul :: "jsnum \<Rightarrow> jsnum \<Rightarrow> jsnum" where
  "js_mul (Fin x) (Fin y) = Fin (x * y)"
| "js_mul NaN _ = NaN"
| "js_mul _ NaN = NaN"
| "js_mul (Fin x) PInf = signed_inf x"
| "js_mul (Fin x) NInf = signed_inf (- x)"
| "js_mul PInf (Fin y) = signed_inf y"
| "js_mul NInf (Fin y) = signed_inf (- y)"
| "js_mul PInf PInf = PInf"
| "js_mul NInf NInf = PInf"
| "js_mul PInf NInf = NInf"
| "js_mul NInf PInf = NInf"

fun js_div :: "jsnum \<Rightarrow> jsnum \<Rightarrow> jsnum" where
  "js_div (Fin x) (Fin y) = (if y = 0 then signed_inf x else Fin (x / y))"
| "js_div NaN _ = NaN"
| "js_div _ NaN = NaN"
| "js_div (Fin x) PInf = Fin 0"
| "js_div (Fin x) NInf = Fin 0"
| "js_div PInf (Fin y) = (if y < 0 then NInf else PInf)"
| "js_div NInf (Fin y) = (if y < 0 then PInf else NInf)"
| "js_div PInf PInf = NaN"
| "js_div PInf NInf = NaN"
| "js_div NInf PInf = NaN"
| "js_div NInf NInf = NaN"

instantiation jsnum :: "{plus, minus, uminus, times, inverse}"
begin

definition plus_jsnum :: "jsnum \<Rightarrow> jsnum \<Rightarrow> jsnum" where
  "plus_jsnum a b = js_add a b"

definition uminus_jsnum :: "jsnum \<Rightarrow> jsnum" where
  "uminus_jsnum a = js_neg a"

definition minus_jsnum :: "jsnum \<Rightarrow> jsnum \<Rightarrow> jsnum" where
  "minus_jsnum a b = js_add a (js_neg b)"

definition times_jsnum :: "jsnum \<Rightarrow> jsnum \<Rightarrow> jsnum" where
  "times_jsnum a b = js_mul a b"

definition divide_jsnum :: "jsnum \<Rightarrow> jsnum \<Rightarrow> jsnum" where
  "divide_jsnum a b = js_div a b"

definition inverse_jsnum :: "jsnum \<Rightarrow> jsnum" where
  "inverse_jsnum a = js_div (Fin 1) a"

instance ..

end

text \<open>The comparisons \<^verbatim>\<open><\<close>, \<^verbatim>\<open><=\<close> and \<^verbatim>\<open>>=\<close>: false whenever an operand is NaN.\<close>

fun js_lt :: "jsnum \<Rightarrow> jsnum \<Rightarrow> bool" where
  "js_lt (Fin x) (Fin y) = (x < y)"
| "js_lt NaN _ = False"
| "js_lt _ NaN = False"
| "js_lt _ NInf = False"
| "js_lt PInf _ = False"
| "js_lt NInf _ = True"
| "js_lt _ PInf = True"

fun js_le :: "jsnum \<Rightarrow> jsnum \<Rightarrow> bool" where
  "js_le (Fin x) (Fin y) = (x \<le> y)"
| "js_le NaN _ = False"
| "js_le _ NaN = False"
| "js_le NInf _ = True"
| "js_le _ PInf = True"
| "js_le PInf _ = False"
| "js_le _ NInf = False"

definition js_ge :: "jsnum \<Rightarrow> jsnum \<Rightarrow> bool" where
  "js_ge a b = js_le b a"

fun isFinite :: "jsnum \<Rightarrow> bool" where
  "isFinite (Fin x) = True"
| "isFinite _ = False"

fun Math_abs :: "jsnum \<Rightarrow> jsnum" where
  "Math_abs (Fin x) = Fin \<bar>x\<bar>"
| "Math_abs PInf = PInf"
| "Math_abs NInf = PInf"
| "Math_abs NaN = NaN"

text \<open>\<^verbatim>\<open>Math.round\<close>: the nearest integer, a tie going up.\<close>

fun Math_round :: "jsnum \<Rightarrow> jsnum" where
  "Math_round (Fin x) = Fin (of_int \<lfloor>x + 1 / 2\<rfloor>)"
| "Math_round v = v"

text \<open>
  \<^verbatim>\<open>Math.pow\<close> at an integer exponent, the only exponents this program passes (a
  loop index, or the negated number of loan periods).
\<close>

fun Math_pow :: "jsnum \<Rightarrow> int \<Rightarrow> jsnum" where
  "Math_pow (Fin x) n =
     (if n = 0 then Fin 1
      else if 0 < n then Fin (x ^ nat n)
      else if x = 0 then PInf
      else Fin (1 / x ^ nat (- n)))"
| "Math_pow NaN n = (if n = 0 then Fin 1 else NaN)"
| "Math_pow PInf n = (if n = 0 then Fin 1 else if 0 < n then PInf else Fin 0)"
| "Math_pow NInf n =
     (if n = 0 then Fin 1
      else if 0 < n then (if even n then PInf else NInf)
      else Fin 0)"

section \<open>Utility functions\<close>

text \<open>
  \<^verbatim>\<open>pmt(rate, nper, pv)\<close>. The caller passes a number of periods that is an integer
  (the minimum of two year counts). Where the program's rounding makes \<open>1 + rate\<close> equal
  to 1, or its power overflows, the program's result is an infinity, a zero or NaN where
  this definition has a finite number; the statements about the installment further down
  are those that hold of both.
\<close>

definition pmt :: "jsnum \<Rightarrow> int \<Rightarrow> jsnum \<Rightarrow> jsnum" where
  "pmt rate nper pv =
     (if rate = Fin 0 then - (pv / Fin (of_int nper))
      else - (pv * rate) / (Fin 1 - Math_pow (Fin 1 + rate) (- nper)))"

text \<open>
  \<^verbatim>\<open>npv(discountRate, cashflows)\<close>: \<^verbatim>\<open>reduce\<close> with the index of the element,
  from the accumulator 0.
\<close>

fun npv_reduce :: "jsnum \<Rightarrow> jsnum \<Rightarrow> int \<Rightarrow> jsnum list \<Rightarrow> jsnum" where
  "npv_reduce discountRate acc i [] = acc"
| "npv_reduce discountRate acc i (cf # cfs) =
     npv_reduce discountRate (acc + cf / Math_pow (Fin 1 + discountRate) i) (i + 1) cfs"

definition npv :: "jsnum \<Rightarrow> jsnum list \<Rightarrow> jsnum" where
  "npv discountRate cashflows = npv_reduce discountRate (Fin 0) 0 cashflows"

text \<open>
  \<^verbatim>\<open>irr(cashflows, guess)\<close>. The inner loop over \<open>t\<close> accumulates \<open>f\<close> and
  \<open>df\<close>; the outer loop runs while \<open>iter < 100\<close> and leaves early on a non-finite
  rate or a small step. The outer loop also returns the number of passes it has made.
  The program's rate can overflow to an infinity where the rate of this model stays
  finite; the statements about \<open>irr\<close> further down are about the passes of the loop, in
  terms of the program's own step and rate, not about their magnitudes.
\<close>

fun irr_sums :: "jsnum \<Rightarrow> int \<Rightarrow> jsnum \<Rightarrow> jsnum \<Rightarrow> jsnum list \<Rightarrow> jsnum \<times> jsnum" where
  "irr_sums rate t f df [] = (f, df)"
| "irr_sums rate t f df (cf # cfs) =
     (let denom = Math_pow (Fin 1 + rate) t;
          f' = f + cf / denom;
          df' = (if 0 < t then df + (Fin (- of_int t) * cf) / Math_pow (Fin 1 + rate) (t + 1)
                 else df)
      in irr_sums rate (t + 1) f' df' cfs)"

function irr_loop :: "jsnum list \<Rightarrow> jsnum \<Rightarrow> nat \<Rightarrow> jsnum \<times> nat" where
  "irr_loop cashflows rate iter =
     (if iter < 100 then
        (let (f, df) = irr_sums rate 0 (Fin 0) (Fin 0) cashflows;
             step = f / df;
             rate' = rate - step
         in if \<not> isFinite rate' \<or> js_lt (Math_abs step) (Fin (1 / 10 ^ 8))
            then (rate', iter + 1)
            else irr_loop cashflows rate' (iter + 1))
      else (rate, iter))"
  by pat_completeness auto
termination
  by (relation "measure (\<lambda>(cashflows, rate, iter). 100 - iter)") auto

declare irr_loop.simps [simp del]

text \<open>
  No operation of \<^verbatim>\<open>irr\<close> throws: it reads the elements of an array of numbers and
  does arithmetic on them. A call therefore always completes with \<open>Inr\<close>; \<open>Inl\<close>
  stands for a thrown exception, which the caller's \<^verbatim>\<open>try\<close> would catch.
\<close>

datatype js_exception = TypeError

definition irr :: "jsnum list \<Rightarrow> jsnum \<Rightarrow> js_exception + jsnum" where
  "irr cashflows guess = Inr (fst (irr_loop cashflows guess 0))"

text \<open>
  One pass of the loop of \<^verbatim>\<open>irr\<close>, taken apart: the Newton step \<open>f / df\<close> at a
  rate, the rate after \<^verbatim>\<open>rate -= step\<close>, and the condition of the \<^verbatim>\<open>break\<close>.
\<close>

definition irr_step :: "jsnum list \<Rightarrow> jsnum \<Rightarrow> jsnum" where
  "irr_step cashflows rate =
     (let (f, df) = irr_sums rate 0 (Fin 0) (Fin 0) cashflows in f / df)"

definition irr_next :: "jsnum list \<Rightarrow> jsnum \<Rightarrow> jsnum" where
  "irr_next cashflows rate = rate - irr_step cashflows rate"

definition irr_stops :: "jsnum list \<Rightarrow> jsnum \<Rightarrow> bool" where
  "irr_stops cashflows rate \<longleftrightarrow>
     \<not> isFinite (irr_next cashflows rate)
     \<or> js_lt (Math_abs (irr_step cashflows rate)) (Fin (1 / 10 ^ 8))"

section \<open>Core calculator (yearly)\<close>

text \<open>
  The parameter object of \<^verbatim>\<open>buildYearlyProjection\<close>. The two year counts are
  integers, as the form enters them (step 1); every other field is any number.
\<close>

record config =
  capacityKw :: jsnum
  unitsPerKwDay :: jsnum
  degradationPct :: jsnum
  contractYears :: int
  ppaTariff :: jsnum
  tariffEscalationPct :: jsnum
  capexPerKw :: jsnum
  upfrontPercent :: jsnum
  loanInterestPct :: jsnum
  loanTenureYears :: int
  omrPerKwYear :: jsnum
  omrEscalationPct :: jsnum
  discountRatePct :: jsnum

record year_row =
  year :: int
  generationKwh :: jsnum
  tariff :: jsnum
  revenue :: jsnum
  omr :: jsnum
  emi :: jsnum
  net :: jsnum

text \<open>An entry \<^verbatim>\<open>{ year, value }\<close> of the cumulative series.\<close>

record cum_entry =
  cyear :: int
  cvalue :: jsnum

text \<open>
  The summary object. \<open>npv_value\<close> and \<open>irr_value\<close> are its fields \<^verbatim>\<open>npv\<close> and
  \<^verbatim>\<open>irr\<close>; \<open>None\<close> is \<^verbatim>\<open>null\<close>.
\<close>

record yearly_summary =
  capexTotal :: jsnum
  upfront :: jsnum
  loanAmount :: jsnum
  year1Gen :: jsnum
  year1Revenue :: jsnum
  emiAnnual :: jsnum
  paybackYear :: "nat option"
  npv_value :: jsnum
  irr_value :: "jsnum option"
  cumulative :: "cum_entry list"
  rows :: "year_row list"

text \<open>
  The loop \<^verbatim>\<open>for (let y = 1; y <= contractYears; y++)\<close> with its three running
  variables \<open>gen\<close>, \<open>tariff\<close> and \<open>omr\<close> (here \<open>g\<close>, \<open>t\<close>, \<open>om\<close>) and the array
  it pushes to.
\<close>

function year_loop ::
  "config \<Rightarrow> int \<Rightarrow> jsnum \<Rightarrow> int \<Rightarrow> jsnum \<Rightarrow> jsnum \<Rightarrow> jsnum \<Rightarrow> year_row list \<Rightarrow> year_row list"
where
  "year_loop c loanNper emiA y g t om rs =
     (if y \<le> contractYears c then
        (let g' = (if 1 < y then g * (Fin 1 - degradationPct c / Fin 100) else g);
             t' = (if 1 < y then t * (Fin 1 + tariffEscalationPct c / Fin 100) else t);
             om' = (if 1 < y then om * (Fin 1 + omrEscalationPct c / Fin 100) else om);
             rev = g' * t';
             loanPayment = (if y \<le> loanNper then emiA else Fin 0);
             n = rev - om' + loanPayment
         in year_loop c loanNper emiA (y + 1) g' t' om'
              (rs @ [\<lparr>year = y, generationKwh = Math_round g', tariff = t', revenue = rev,
                       omr = om', emi = loanPayment, net = n\<rparr>]))
      else rs)"
  by pat_completeness auto
termination
  by (relation "measure (\<lambda>(c, loanNper, emiA, y, g, t, om, rs). nat (contractYears c + 1 - y))")
     auto

declare year_loop.simps [simp del]

text \<open>The payback search: the first index at which the running total is \<^verbatim>\<open>>= 0\<close>.\<close>

fun payback_loop :: "jsnum \<Rightarrow> nat \<Rightarrow> year_row list \<Rightarrow> nat option" where
  "payback_loop cum i [] = None"
| "payback_loop cum i (r # rs) =
     (let cum' = cum + net r
      in if js_ge cum' (Fin 0) then Some i else payback_loop cum' (i + 1) rs)"

text \<open>The \<^verbatim>\<open>reduce\<close> that builds the cumulative series.\<close>

fun cumulative_reduce :: "cum_entry list \<Rightarrow> year_row list \<Rightarrow> cum_entry list" where
  "cumulative_reduce acc [] = acc"
| "cumulative_reduce acc (r # rs) =
     (let prev = (if acc \<noteq> [] then cvalue (last acc) else Fin 0)
      in cumulative_reduce (acc @ [\<lparr>cyear = year r, cvalue = prev + net r\<rparr>]) rs)"

definition buildYearlyProjection :: "config \<Rightarrow> yearly_summary" where
  "buildYearlyProjection c =
     (let daysPerYear = Fin 365;
          year1Gen = capacityKw c * unitsPerKwDay c * daysPerYear;
          capexTotal = capacityKw c * capexPerKw c;
          upfront = (upfrontPercent c / Fin 100) * capexTotal;
          loanAmount = capexTotal - upfront;
          loanRate = loanInterestPct c / Fin 100;
          loanNper = max 0 (min (contractYears c) (loanTenureYears c));
          emiAnnual = (if 0 < loanNper then pmt loanRate loanNper loanAmount else Fin 0);
          rows0 = [\<lparr>year = 0, generationKwh = Fin 0, tariff = Fin 0, revenue = Fin 0,
                    omr = Fin 0, emi = Fin 0, net = - upfront\<rparr>];
          rows = year_loop c loanNper emiAnnual 1 year1Gen (ppaTariff c)
                   (capacityKw c * omrPerKwYear c) rows0;
          cashflows = map net rows
      in \<lparr>capexTotal = capexTotal,
          upfront = upfront,
          loanAmount = loanAmount,
          year1Gen = Math_round year1Gen,
          year1Revenue = year1Gen * ppaTariff c,
          emiAnnual = emiAnnual,
          paybackYear = payback_loop (Fin 0) 0 rows,
          npv_value = npv (discountRatePct c / Fin 100) cashflows,
          irr_value = (case irr cashflows (Fin (15 / 100)) of
                         Inr r \<Rightarrow> Some r
                       | Inl e \<Rightarrow> None),
          cumulative = cumulative_reduce [] rows,
          rows = rows\<rparr>)"

section \<open>Monthly expansion (derived from yearly)\<close>

record month_row =
  key :: string
  label :: string
  month :: string
  m_generationKwh :: jsnum
  m_tariff :: jsnum
  m_revenue :: jsnum
  m_omr :: jsnum
  m_emi :: jsnum
  m_net :: jsnum

record monthly_summary =
  m_rows :: "month_row list"
  m_cumulative :: "jsnum list"

definition months :: "string list" where
  "months = [''Jan'', ''Feb'', ''Mar'', ''Apr'', ''May'', ''Jun'',
             ''Jul'', ''Aug'', ''Sep'', ''Oct'', ''Nov'', ''Dec'']"

text \<open>The decimal digits of an index, as a template literal prints it.\<close>

fun show_nat :: "nat \<Rightarrow> string" where
  "show_nat n =
     (if n < 10 then [''0123456789'' ! n]
      else show_nat (n div 10) @ [''0123456789'' ! (n mod 10)])"

declare show_nat.simps [simp del]

text \<open>The inner loop over \<open>m\<close>: the twelve rows of the year at index \<open>y\<close>.\<close>

definition month_rows_of :: "nat \<Rightarrow> year_row \<Rightarrow> month_row list" where
  "month_rows_of y yr =
     (let monthlyGen = generationKwh yr / Fin 12;
          monthlyTariff = tariff yr;
          monthlyRevenue = revenue yr / Fin 12;
          monthlyOMR = omr yr / Fin 12;
          monthlyEMI = emi yr / Fin 12;
          monthlyNet = net yr / Fin 12
      in map (\<lambda>m. \<lparr>key = ''Y'' @ show_nat y @ ''-M'' @ show_nat (m + 1),
                    label = ''Y'' @ show_nat y,
                    month = months ! m,
                    m_generationKwh = Math_round monthlyGen,
                    m_tariff = monthlyTariff,
                    m_revenue = monthlyRevenue,
                    m_omr = monthlyOMR,
                    m_emi = monthlyEMI,
                    m_net = monthlyNet\<rparr>) [0..<12])"

text \<open>The outer loop, over the yearly rows from index 1 on.\<close>

fun monthly_loop :: "nat \<Rightarrow> year_row list \<Rightarrow> month_row list \<Rightarrow> month_row list" where
  "monthly_loop y [] rs = rs"
| "monthly_loop y (yr # yrs) rs = monthly_loop (y + 1) yrs (rs @ month_rows_of y yr)"

text \<open>\<^verbatim>\<open>rows.map((r) => (cum += r.net))\<close>.\<close>

fun running_total :: "jsnum \<Rightarrow> month_row list \<Rightarrow> jsnum list" where
  "running_total cum [] = []"
| "running_total cum (r # rs) = (let cum' = cum + m_net r in cum' # running_total cum' rs)"

text \<open>
  Reading \<^verbatim>\<open>yearly.rows[0].net\<close> of an empty array throws a \<^verbatim>\<open>TypeError\<close>.
\<close>

definition buildMonthlyProjection :: "yearly_summary \<Rightarrow> js_exception + monthly_summary" where
  "buildMonthlyProjection yearly =
     (case rows yearly of
        [] \<Rightarrow> Inl TypeError
      | r0 # yrs \<Rightarrow>
          (let rows0 = [\<lparr>key = ''Y0-M0'', label = ''Y0'', month = ''-'',
                         m_generationKwh = Fin 0, m_tariff = Fin 0, m_revenue = Fin 0,
                         m_omr = Fin 0, m_emi = Fin 0, m_net = net r0\<rparr>];
               mrows = monthly_loop 1 yrs rows0
           in Inr \<lparr>m_rows = mrows, m_cumulative = running_total (Fin 0) mrows\<rparr>))"

text \<open>The sum of a sequence of numbers, accumulated from 0 in the order of the sequence.\<close>

definition js_sum :: "jsnum list \<Rightarrow> jsnum" where
  "js_sum xs = foldl (+) (Fin 0) xs"

text \<open>
  The values the form starts from, with no plant (\<open>capacityKw = 0\<close>) and a contract of
  one year: every cash flow is 0.
\<close>

definition no_plant_config :: config where
  "no_plant_config =
     \<lparr>capacityKw = Fin 0, unitsPerKwDay = Fin (42 / 10), degradationPct = Fin (6 / 10),
      contractYears = 1, ppaTariff = Fin 5, tariffEscalationPct = Fin 2,
      capexPerKw = Fin 42000, upfrontPercent = Fin 20, loanInterestPct = Fin (115 / 10),
      loanTenureYears = 7, omrPerKwYear = Fin 800, omrEscalationPct = Fin 3,
      discountRatePct = Fin 12\<rparr>"

text \<open>
  The values of the running variables \<open>gen\<close>, \<open>tariff\<close> and \<open>omr\<close> of the yearly loop
  when the row of year \<open>k + 1\<close> is pushed: the base value, escalated \<open>k\<close> times.
\<close>

fun gen_of_year :: "config \<Rightarrow> nat \<Rightarrow> jsnum" where
  "gen_of_year c 0 = capacityKw c * unitsPerKwDay c * Fin 365"
| "gen_of_year c (Suc k) = gen_of_year c k * (Fin 1 - degradationPct c / Fin 100)"

fun tariff_of_year :: "config \<Rightarrow> nat \<Rightarrow> jsnum" where
  "tariff_of_year c 0 = ppaTariff c"
| "tariff_of_year c (Suc k) = tariff_of_year c k * (Fin 1 + tariffEscalationPct c / Fin 100)"

fun omr_of_year :: "config \<Rightarrow> nat \<Rightarrow> jsnum" where
  "omr_of_year c 0 = capacityKw c * omrPerKwYear c"
| "omr_of_year c (Suc k) = omr_of_year c k * (Fin 1 + omrEscalationPct c / Fin 100)"

text \<open>The row the loop pushes for year \<open>y\<close>, from those values.\<close>

definition row_of_year :: "config \<Rightarrow> int \<Rightarrow> jsnum \<Rightarrow> int \<Rightarrow> year_row" where
  "row_of_year c loanNper emiA y =
     (let k = nat (y - 1);
          loanPayment = (if y \<le> loanNper then emiA else Fin 0)
      in \<lparr>year = y, generationKwh = Math_round (gen_of_year c k),
          tariff = tariff_of_year c k,
          revenue = gen_of_year c k * tariff_of_year c k,
          omr = omr_of_year c k, emi = loanPayment,
          net = gen_of_year c k * tariff_of_year c k - omr_of_year c k + loanPayment\<rparr>)"

text \<open>The number of loan periods, as the builder computes it.\<close>

definition loanNper_of :: "config \<Rightarrow> int" where
  "loanNper_of c = max 0 (min (contractYears c) (loanTenureYears c))"

text \<open>The values the form starts from.\<close>

definition default_config :: config where
  "default_config =
     \<lparr>capacityKw = Fin 50, unitsPerKwDay = Fin (42 / 10), degradationPct = Fin (6 / 10),
      contractYears = 20, ppaTariff = Fin 5, tariffEscalationPct = Fin 2,
      capexPerKw = Fin 42000, upfrontPercent = Fin 20, loanInterestPct = Fin (115 / 10),
      loanTenureYears = 7, omrPerKwYear = Fin 800, omrEscalationPct = Fin 3,
      discountRatePct = Fin 12\<rparr>"

text \<open>The same, with the plant paid in full upfront: nothing is financed.\<close>

definition full_equity_config :: config where
  "full_equity_config = default_config\<lparr>upfrontPercent := Fin 100\<rparr>"

text \<open>The same, with an upfront share of 150 percent.\<close>

definition over_equity_config :: config where
  "over_equity_config = default_config\<lparr>upfrontPercent := Fin 150\<rparr>"

text \<open>
  A plant of 1 kW under a contract of two years, financed without interest over the
  same two years, with no escalation.
\<close>

definition small_config :: config where
  "small_config =
     \<lparr>capacityKw = Fin 1, unitsPerKwDay = Fin 4, degradationPct = Fin 0,
      contractYears = 2, ppaTariff = Fin 5, tariffEscalationPct = Fin 0,
      capexPerKw = Fin 10000, upfrontPercent = Fin 20, loanInterestPct = Fin 0,
      loanTenureYears = 2, omrPerKwYear = Fin 800, omrEscalationPct = Fin 0,
      discountRatePct = Fin 0\<rparr>"

text \<open>The same plant, selling its energy at a tariff of 0.\<close>

definition unpaid_config :: config where
  "unpaid_config = small_config\<lparr>ppaTariff := Fin 0\<rparr>"

text \<open>
  A plant that costs nothing to build and sells at a tariff of 0 for one year: the cash
  flows are 0 and the O&M cost of the year, -100.
\<close>

definition running_cost_config :: config where
  "running_cost_config =
     \<lparr>capacityKw = Fin 1, unitsPerKwDay = Fin 4, degradationPct = Fin 0,
      contractYears = 1, ppaTariff = Fin 0, tariffEscalationPct = Fin 0,
      capexPerKw = Fin 0, upfrontPercent = Fin 20, loanInterestPct = Fin 0,
      loanTenureYears = 1, omrPerKwYear = Fin 100, omrEscalationPct = Fin 0,
      discountRatePct = Fin 0\<rparr>"

text \<open>The form's values with a loan at -300 percent over one year.\<close>

definition negative_interest_config :: config where
  "negative_interest_config =
     default_config\<lparr>loanInterestPct := Fin (- 300), loanTenureYears := 1\<rparr>"

text \<open>Nothing financed, at an infinite interest.\<close>

definition infinite_interest_config :: config where
  "infinite_interest_config = full_equity_config\<lparr>loanInterestPct := PInf\<rparr>"

section \<open>Properties\<close>

subsection \<open>Arithmetic of the number model\<close>

lemma js_add_zero_left [simp]: "Fin 0 + a = a"
  by (cases a) (simp_all add: plus_jsnum_def)

lemma js_div_one [simp]: "a / Fin 1 = a"
  by (cases a) (simp_all add: divide_jsnum_def)

lemma Math_pow_one [simp]: "Math_pow (Fin 1) n = Fin 1"
  by simp

lemma Math_pow_zero_exp [simp]: "Math_pow b 0 = Fin 1"
  by (cases b) simp_all

lemma Math_pow_Fin_nat: "Math_pow (Fin x) (int k) = Fin (x ^ k)"
  by (cases k) (simp_all add: nat_add_distrib)

declare Math_pow.simps [simp del]

lemma Fin_plus [simp]: "Fin x + Fin y = Fin (x + y)"
  by (simp add: plus_jsnum_def)

lemma Fin_div [simp]: "y \<noteq> 0 \<Longrightarrow> Fin x / Fin y = Fin (x / y)"
  by (simp add: divide_jsnum_def)

subsection \<open>Net present value\<close>

lemma npv_reduce_rate0: "npv_reduce (Fin 0) acc i cfs = foldl (+) acc cfs"
  by (induction cfs arbitrary: acc i) simp_all

lemma npv_reduce_terms:
  "npv_reduce r acc i cfs =
     foldl (+) acc (map (\<lambda>t. cfs ! t / Math_pow (Fin 1 + r) (i + int t)) [0..<length cfs])"
proof (induction cfs arbitrary: acc i)
  case Nil
  then show ?case by simp
next
  case (Cons cf cfs)
  have "(\<lambda>t. (cf # cfs) ! Suc t / Math_pow (Fin 1 + r) (i + int (Suc t)))
      = (\<lambda>t. cfs ! t / Math_pow (Fin 1 + r) (i + 1 + int t))"
    by (simp add: ac_simps)
  then show ?case
    using Cons.IH [of "acc + cf / Math_pow (Fin 1 + r) i" "i + 1"]
    by (simp add: map_upt_Suc del: upt_Suc)
qed

lemma npv_reduce_finite:
  assumes "1 + r \<noteq> 0"
  shows "npv_reduce (Fin r) (Fin a) (int k) (map Fin xs)
       = Fin (a + (\<Sum>t<length xs. xs ! t / (1 + r) ^ (k + t)))"
proof (induction xs arbitrary: a k)
  case Nil
  then show ?case by simp
next
  case (Cons x xs)
  have p: "Math_pow (Fin (1 + r)) (int k) = Fin ((1 + r) ^ k)"
    by (simp add: Math_pow_Fin_nat)
  have s: "(\<Sum>t<length (x # xs). (x # xs) ! t / (1 + r) ^ (k + t))
         = x / (1 + r) ^ k + (\<Sum>t<length xs. xs ! t / (1 + r) ^ (Suc k + t))"
    by (simp add: sum.lessThan_Suc_shift del: sum.lessThan_Suc)
  have e: "npv_reduce (Fin r) (Fin a) (int k) (map Fin (x # xs))
      = npv_reduce (Fin r) (Fin (a + x / (1 + r) ^ k)) (int (Suc k)) (map Fin xs)"
    using assms by (simp add: p add.commute)
  have "npv_reduce (Fin r) (Fin a) (int k) (map Fin (x # xs))
      = Fin (a + x / (1 + r) ^ k + (\<Sum>t<length xs. xs ! t / (1 + r) ^ (Suc k + t)))"
    by (rule trans [OF e Cons.IH])
  then show ?case
    by (simp only: s add.assoc)
qed

text \<open>
  Claim C9. At the discount rate 0, \<open>npv\<close> is the sum of the cash flows. At any rate it
  is the sum over \<open>t\<close> of \<open>cashflows[t] / (1 + discountRate)^t\<close>, the term of period 0
  being the cash flow itself; on finite cash flows at a finite rate other than -1, that is
  the real number \<open>\<Sum>t. x\<^sub>t / (1 + r)^t\<close>.
\<close>

theorem npv_discounted_sum:
  "npv (Fin 0) cashflows = js_sum cashflows
   \<and> npv discountRate cashflows =
       js_sum (map (\<lambda>t. cashflows ! t / Math_pow (Fin 1 + discountRate) (int t))
                 [0..<length cashflows])
   \<and> cf / Math_pow (Fin 1 + discountRate) 0 = cf
   \<and> (1 + r \<noteq> 0 \<longrightarrow>
        npv (Fin r) (map Fin xs) = Fin (\<Sum>t<length xs. xs ! t / (1 + r) ^ t))"
proof -
  have a: "npv (Fin 0) cashflows = js_sum cashflows"
    by (simp add: npv_def js_sum_def npv_reduce_rate0)
  have b: "npv discountRate cashflows =
       js_sum (map (\<lambda>t. cashflows ! t / Math_pow (Fin 1 + discountRate) (int t))
                 [0..<length cashflows])"
    unfolding npv_def js_sum_def by (subst npv_reduce_terms) simp
  have c: "cf / Math_pow (Fin 1 + discountRate) 0 = cf"
    by simp
  have d: "1 + r \<noteq> 0 \<longrightarrow>
        npv (Fin r) (map Fin xs) = Fin (\<Sum>t<length xs. xs ! t / (1 + r) ^ t)"
    using npv_reduce_finite [of r 0 0 xs] by (simp add: npv_def)
  from a b c d show ?thesis by blast
qed

theorem npv_discounted_sum_witness:
  "1 + (1 / 10 :: real) \<noteq> 0
   \<and> npv (Fin (1 / 10)) (map Fin [- 100, 110]) = Fin 0
   \<and> npv (Fin 0) [Fin (- 100), Fin 110] = Fin 10"
  using npv_discounted_sum [of "[Fin (- 100), Fin 110]" "Fin 0" NaN "1 / 10" "[- 100, 110]"]
  by (simp add: js_sum_def lessThan_Suc eval_nat_numeral)

subsection \<open>Internal rate of return\<close>

lemmas js_arith_defs =
  plus_jsnum_def minus_jsnum_def uminus_jsnum_def times_jsnum_def divide_jsnum_def
  signed_inf_def

lemma irr_loop_iterations: "iter \<le> 100 \<Longrightarrow> snd (irr_loop cashflows rate iter) \<le> 100"
proof (induction cashflows rate iter rule: irr_loop.induct)
  case (1 cashflows rate iter)
  show ?case
  proof (cases "iter < 100")
    case True
    obtain f df where s: "irr_sums rate 0 (Fin 0) (Fin 0) cashflows = (f, df)"
      by (cases "irr_sums rate 0 (Fin 0) (Fin 0) cashflows")
    show ?thesis
    proof (cases "\<not> isFinite (rate - f / df) \<or> js_lt (Math_abs (f / df)) (Fin (1 / 10 ^ 8))")
      case stop: True
      then show ?thesis
        using True s by (subst irr_loop.simps) (simp add: Let_def)
    next
      case go: False
      have "snd (irr_loop cashflows (rate - f / df) (iter + 1)) \<le> 100"
        using "1.IH" [OF True s [symmetric] refl refl] go True by simp
      then show ?thesis
        using True s go by (subst irr_loop.simps) (simp add: Let_def)
    qed
  next
    case False
    with "1.prems" show ?thesis
      by (subst irr_loop.simps) simp
  qed
qed

lemma irr_value_eq:
  "irr_value (buildYearlyProjection c) =
     Some (fst (irr_loop (map net (rows (buildYearlyProjection c))) (Fin (15 / 100)) 0))"
  by (simp add: buildYearlyProjection_def Let_def irr_def)

lemma no_plant_rows:
  "map net (rows (buildYearlyProjection no_plant_config)) = [Fin 0, Fin 0]"
  by (simp add: buildYearlyProjection_def no_plant_config_def Let_def year_loop.simps pmt_def
      Math_pow.simps js_arith_defs)

lemma irr_zero_flows: "irr_loop [Fin 0, Fin 0] (Fin (3 / 20)) 0 = (NaN, Suc 0)"
  by (subst irr_loop.simps) (simp add: Let_def Math_pow.simps js_arith_defs)

text \<open>
  Claim C10. \<open>irr\<close> always completes with a number, after at most 100 passes of its loop,
  and never with an exception; the \<open>irr\<close> field of the summary is therefore never
  \<open>null\<close>.
\<close>

theorem irr_returns_number:
  "(\<exists>r n. irr_loop cashflows guess 0 = (r, n) \<and> n \<le> 100 \<and> irr cashflows guess = Inr r)
   \<and> irr_value (buildYearlyProjection c) \<noteq> None"
proof -
  obtain r n where e: "irr_loop cashflows guess 0 = (r, n)"
    by (cases "irr_loop cashflows guess 0")
  have "n \<le> 100"
    using irr_loop_iterations [of 0 cashflows guess] e by simp
  moreover have "irr cashflows guess = Inr r"
    using e by (simp add: irr_def)
  ultimately show ?thesis
    using e by (simp add: irr_value_eq)
qed

theorem irr_returns_number_witness:
  "irr_loop [Fin 0, Fin 0] (Fin (15 / 100)) 0 = (NaN, 1)
   \<and> irr [Fin 0, Fin 0] (Fin (15 / 100)) = Inr NaN
   \<and> irr_value (buildYearlyProjection no_plant_config) \<noteq> None"
  using irr_returns_number [of "[Fin 0, Fin 0]" "Fin (15 / 100)" no_plant_config]
  by (simp add: irr_zero_flows irr_def)

lemma irr_loop_pass:
  "irr_loop cashflows rate iter =
     (if iter < 100 then
        (if irr_stops cashflows rate then (irr_next cashflows rate, iter + 1)
         else irr_loop cashflows (irr_next cashflows rate) (iter + 1))
      else (rate, iter))"
  by (subst irr_loop.simps)
     (simp add: irr_stops_def irr_next_def irr_step_def Let_def split: prod.splits)

lemma irr_loop_continues:
  "(\<forall>j < k. \<not> irr_stops cashflows ((irr_next cashflows ^^ j) rate)) \<Longrightarrow> iter + k \<le> 100 \<Longrightarrow>
   irr_loop cashflows rate iter
     = irr_loop cashflows ((irr_next cashflows ^^ k) rate) (iter + k)"
proof (induction k arbitrary: rate iter)
  case 0
  then show ?case by simp
next
  case (Suc k)
  from Suc.prems(1) have now: "\<not> irr_stops cashflows rate"
    by (simp add: All_less_Suc2)
  from Suc.prems(1)
  have later: "\<forall>j < k. \<not> irr_stops cashflows ((irr_next cashflows ^^ j) (irr_next cashflows rate))"
    by (simp add: All_less_Suc2 funpow_swap1)
  have "irr_loop cashflows rate iter = irr_loop cashflows (irr_next cashflows rate) (iter + 1)"
    using now Suc.prems(2) by (subst irr_loop_pass) simp
  also have "\<dots> = irr_loop cashflows ((irr_next cashflows ^^ k) (irr_next cashflows rate))
                     (iter + 1 + k)"
    using later Suc.prems(2) by (intro Suc.IH) simp_all
  finally show ?case
    by (simp add: funpow_swap1)
qed

lemma irr_loop_stopped:
  assumes "k < 100" "\<forall>j < k. \<not> irr_stops cashflows ((irr_next cashflows ^^ j) guess)"
    and "irr_stops cashflows ((irr_next cashflows ^^ k) guess)"
  shows "irr_loop cashflows guess 0 = ((irr_next cashflows ^^ (k + 1)) guess, k + 1)"
proof -
  have "irr_loop cashflows guess 0 = irr_loop cashflows ((irr_next cashflows ^^ k) guess) (0 + k)"
    using assms(1,2) by (intro irr_loop_continues) simp_all
  also have "\<dots> = (irr_next cashflows ((irr_next cashflows ^^ k) guess), k + 1)"
    using assms(1,3) by (subst irr_loop_pass) simp
  finally show ?thesis
    by simp
qed

lemma irr_loop_exhausted:
  assumes "\<forall>j < 100. \<not> irr_stops cashflows ((irr_next cashflows ^^ j) guess)"
  shows "irr_loop cashflows guess 0 = ((irr_next cashflows ^^ 100) guess, 100)"
proof -
  have "irr_loop cashflows guess 0
      = irr_loop cashflows ((irr_next cashflows ^^ 100) guess) (0 + 100)"
    using assms by (intro irr_loop_continues) simp_all
  also have "\<dots> = ((irr_next cashflows ^^ 100) guess, 100)"
    by (subst irr_loop_pass) simp
  finally show ?thesis .
qed

text \<open>
  Claim C3, as amended. The \<open>irr\<close> field of the summary is never \<open>null\<close>. When the
  passes of the Newton iteration go on (no \<^verbatim>\<open>break\<close>) until one of them, among the
  100, produces a non-finite rate, the field is that non-finite number. When all 100
  passes go on without the step ever falling below \<open>1e-8\<close>, the field is the rate
  after the 100th pass, a finite number. The summary is built in every case.
\<close>

theorem irr_value_never_null:
  "irr_value (buildYearlyProjection c) \<noteq> None
   \<and> (k < 100
       \<and> (\<forall>j < k. \<not> irr_stops (map net (rows (buildYearlyProjection c)))
                      ((irr_next (map net (rows (buildYearlyProjection c))) ^^ j) (Fin (15 / 100))))
       \<and> \<not> isFinite ((irr_next (map net (rows (buildYearlyProjection c))) ^^ (k + 1))
                        (Fin (15 / 100)))
       \<longrightarrow> irr_value (buildYearlyProjection c)
             = Some ((irr_next (map net (rows (buildYearlyProjection c))) ^^ (k + 1))
                      (Fin (15 / 100))))
   \<and> ((\<forall>j < 100. \<not> irr_stops (map net (rows (buildYearlyProjection c)))
                      ((irr_next (map net (rows (buildYearlyProjection c))) ^^ j) (Fin (15 / 100))))
       \<longrightarrow> irr_value (buildYearlyProjection c)
             = Some ((irr_next (map net (rows (buildYearlyProjection c))) ^^ 100) (Fin (15 / 100)))
           \<and> isFinite ((irr_next (map net (rows (buildYearlyProjection c))) ^^ 100)
                          (Fin (15 / 100))))"
proof -
  define cfs where "cfs = map net (rows (buildYearlyProjection c))"
  define g where "g = Fin (15 / 100)"
  have v: "irr_value (buildYearlyProjection c) = Some (fst (irr_loop cfs g 0))"
    unfolding cfs_def g_def by (rule irr_value_eq)
  have a: "irr_value (buildYearlyProjection c) = Some ((irr_next cfs ^^ (k + 1)) g)"
    if "k < 100" "\<forall>j < k. \<not> irr_stops cfs ((irr_next cfs ^^ j) g)"
      "\<not> isFinite ((irr_next cfs ^^ (k + 1)) g)"
  proof -
    have "irr_stops cfs ((irr_next cfs ^^ k) g)"
      using that(3) by (simp add: irr_stops_def)
    from irr_loop_stopped [OF that(1,2) this] show ?thesis
      by (simp add: v)
  qed
  have b: "irr_value (buildYearlyProjection c) = Some ((irr_next cfs ^^ 100) g)
           \<and> isFinite ((irr_next cfs ^^ 100) g)"
    if h: "\<forall>j < 100. \<not> irr_stops cfs ((irr_next cfs ^^ j) g)"
  proof -
    have "\<not> irr_stops cfs ((irr_next cfs ^^ 99) g)"
      using h by simp
    then have "isFinite (irr_next cfs ((irr_next cfs ^^ 99) g))"
      by (simp add: irr_stops_def)
    moreover have "(irr_next cfs ^^ 100) g = irr_next cfs ((irr_next cfs ^^ 99) g)"
      by (simp add: eval_nat_numeral)
    ultimately show ?thesis
      using irr_loop_exhausted [OF h] by (simp add: v)
  qed
  have "irr_value (buildYearlyProjection c) \<noteq> None"
    by (simp add: v)
  with a b show ?thesis
    unfolding cfs_def g_def by blast
qed

lemma running_cost_flows:
  "map net (rows (buildYearlyProjection running_cost_config)) = [Fin 0, Fin (- 100)]"
  by (simp add: buildYearlyProjection_def running_cost_config_def Let_def year_loop.simps pmt_def
      Math_pow.simps js_arith_defs)

lemma running_cost_pass:
  assumes "0 < x"
  shows "irr_step [Fin 0, Fin (- 100)] (Fin (x - 1)) = Fin (- x)"
    and "irr_next [Fin 0, Fin (- 100)] (Fin (x - 1)) = Fin (2 * x - 1)"
    and "\<not> irr_stops [Fin 0, Fin (- 100)] (Fin (x - 1)) \<longleftrightarrow> 1 / 10 ^ 8 \<le> x"
proof -
  show s: "irr_step [Fin 0, Fin (- 100)] (Fin (x - 1)) = Fin (- x)"
    using assms
    by (simp add: irr_step_def Let_def Math_pow.simps js_arith_defs power2_eq_square)
  show n: "irr_next [Fin 0, Fin (- 100)] (Fin (x - 1)) = Fin (2 * x - 1)"
    by (simp add: irr_next_def s js_arith_defs)
  show "\<not> irr_stops [Fin 0, Fin (- 100)] (Fin (x - 1)) \<longleftrightarrow> 1 / 10 ^ 8 \<le> x"
    using assms by (simp add: irr_stops_def s n not_less)
qed

lemma running_cost_rates:
  "(irr_next [Fin 0, Fin (- 100)] ^^ j) (Fin (15 / 100)) = Fin (2 ^ j * (115 / 100) - 1)"
proof (induction j)
  case 0
  show ?case by simp
next
  case (Suc j)
  have p: "irr_next [Fin 0, Fin (- 100)] (Fin (2 ^ j * (115 / 100) - 1))
          = Fin (2 * (2 ^ j * (115 / 100)) - 1)"
    by (rule running_cost_pass(2)) simp
  show ?case
    unfolding funpow.simps o_apply Suc.IH p by simp
qed

lemma running_cost_never_stops:
  "\<not> irr_stops [Fin 0, Fin (- 100)]
        ((irr_next [Fin 0, Fin (- 100)] ^^ j) (Fin (15 / 100)))"
proof -
  have "(1::real) \<le> 2 ^ j"
    by simp
  then have "(1::real) \<le> 2 ^ j * (115 / 100)"
    by (intro order_trans [OF _ mult_mono [of 1 "2 ^ j" 1 "115 / 100"]]) simp_all
  then have "(1 / 10 ^ 8 :: real) \<le> 2 ^ j * (115 / 100)"
    by simp
  moreover have "(0::real) < 2 ^ j * (115 / 100)"
    by simp
  ultimately show ?thesis
    unfolding running_cost_rates using running_cost_pass(3) by blast
qed

theorem irr_value_never_null_witness:
  "irr_value (buildYearlyProjection no_plant_config) = Some NaN
   \<and> irr_value (buildYearlyProjection running_cost_config)
       = Some (Fin (2 ^ 100 * (115 / 100) - 1))"
proof -
  have "(irr_next [Fin 0, Fin 0] ^^ (0 + 1)) (Fin (15 / 100)) = NaN"
    by (simp add: irr_next_def irr_step_def Let_def Math_pow.simps js_arith_defs)
  then have a: "irr_value (buildYearlyProjection no_plant_config) = Some NaN"
    using irr_value_never_null [of no_plant_config 0]
    by (simp add: no_plant_rows)
  have ns: "\<forall>j < 100. \<not> irr_stops [Fin 0, Fin (- 100)]
        ((irr_next [Fin 0, Fin (- 100)] ^^ j) (Fin (15 / 100)))"
    using running_cost_never_stops by blast
  have "irr_value (buildYearlyProjection running_cost_config)
       = Some ((irr_next [Fin 0, Fin (- 100)] ^^ 100) (Fin (15 / 100)))"
    using irr_value_never_null [of running_cost_config, unfolded running_cost_flows] ns
    by blast
  then have b: "irr_value (buildYearlyProjection running_cost_config)
       = Some (Fin (2 ^ 100 * (115 / 100) - 1))"
    by (simp only: running_cost_rates)
  from a b show ?thesis
    by blast
qed

text \<open>
  The claim as stated fails with no plant: the division \<open>0 / 0\<close> makes the rate NaN,
  and the field is that NaN, not \<open>null\<close>.
\<close>

theorem irr_value_null_counterexample:
  "\<not> isFinite (fst (irr_loop (map net (rows (buildYearlyProjection no_plant_config)))
                        (Fin (15 / 100)) 0))
   \<and> irr_value (buildYearlyProjection no_plant_config) \<noteq> None"
  by (simp add: irr_value_eq no_plant_rows irr_zero_flows)

subsection \<open>The rows of the yearly projection\<close>

lemma year_loop_step:
  assumes "y \<le> contractYears c" "1 \<le> y"
  shows "year_loop c loanNper emiA y (gen_of_year c (nat (y - 2)))
           (tariff_of_year c (nat (y - 2))) (omr_of_year c (nat (y - 2))) rs
       = year_loop c loanNper emiA (y + 1) (gen_of_year c (nat (y - 1)))
           (tariff_of_year c (nat (y - 1))) (omr_of_year c (nat (y - 1)))
           (rs @ [row_of_year c loanNper emiA y])"
proof (cases "1 < y")
  case True
  then have k: "nat (y - 1) = Suc (nat (y - 2))"
    by simp
  show ?thesis
    using assms True
    by (subst year_loop.simps) (simp add: Let_def row_of_year_def k)
next
  case False
  with assms have k: "y = 1"
    by simp
  show ?thesis
    using assms
    by (subst year_loop.simps) (simp add: Let_def row_of_year_def k)
qed

lemma year_loop_rows:
  "1 \<le> y \<Longrightarrow>
   year_loop c loanNper emiA y (gen_of_year c (nat (y - 2)))
       (tariff_of_year c (nat (y - 2))) (omr_of_year c (nat (y - 2))) rs
     = rs @ map (row_of_year c loanNper emiA) [y..contractYears c]"
proof (induction "nat (contractYears c + 1 - y)" arbitrary: y rs)
  case 0
  then have "\<not> y \<le> contractYears c"
    by simp
  then show ?case
    by (subst year_loop.simps) simp
next
  case (Suc n)
  then have le: "y \<le> contractYears c"
    by simp
  have m: "n = nat (contractYears c + 1 - (y + 1))"
    using Suc.hyps(2) by simp
  have s: "nat (y + 1 - 2) = nat (y - 1)"
    by simp
  have "year_loop c loanNper emiA (y + 1) (gen_of_year c (nat (y + 1 - 2)))
            (tariff_of_year c (nat (y + 1 - 2))) (omr_of_year c (nat (y + 1 - 2)))
            (rs @ [row_of_year c loanNper emiA y])
        = (rs @ [row_of_year c loanNper emiA y])
            @ map (row_of_year c loanNper emiA) [y + 1..contractYears c]"
    using Suc.prems by (intro Suc.hyps(1) [OF m]) simp
  then show ?case
    using le Suc.prems by (simp add: year_loop_step s upto_rec1 [of y])
qed

lemma rows_eq:
  "rows (buildYearlyProjection c) =
     \<lparr>year = 0, generationKwh = Fin 0, tariff = Fin 0, revenue = Fin 0, omr = Fin 0,
      emi = Fin 0, net = - upfront (buildYearlyProjection c)\<rparr>
     # map (row_of_year c (loanNper_of c) (emiAnnual (buildYearlyProjection c)))
         [1..contractYears c]"
  using year_loop_rows [of 1 c]
  by (simp add: buildYearlyProjection_def Let_def loanNper_of_def)

lemma length_rows: "length (rows (buildYearlyProjection c)) = nat (contractYears c) + 1"
  by (simp add: rows_eq)

lemma rows_nth:
  "1 \<le> y \<Longrightarrow> y \<le> contractYears c \<Longrightarrow>
   rows (buildYearlyProjection c) ! nat y
     = row_of_year c (loanNper_of c) (emiAnnual (buildYearlyProjection c)) y"
proof -
  assume a: "1 \<le> y" "y \<le> contractYears c"
  define k where "k = nat (y - 1)"
  have k: "nat y = Suc k" "y = 1 + int k"
    using a by (simp_all add: k_def)
  show ?thesis
    using a k by (simp add: rows_eq nth_upto)
qed

subsection \<open>The loan installment\<close>

lemma emiAnnual_eq:
  "emiAnnual (buildYearlyProjection c) =
     (if 0 < loanNper_of c
      then pmt (loanInterestPct c / Fin 100) (loanNper_of c) (loanAmount (buildYearlyProjection c))
      else Fin 0)"
  by (simp add: buildYearlyProjection_def Let_def loanNper_of_def)

lemma row_of_year_fields [simp]:
  "year (row_of_year c n e y) = y"
  "generationKwh (row_of_year c n e y) = Math_round (gen_of_year c (nat (y - 1)))"
  "tariff (row_of_year c n e y) = tariff_of_year c (nat (y - 1))"
  "revenue (row_of_year c n e y) = gen_of_year c (nat (y - 1)) * tariff_of_year c (nat (y - 1))"
  "omr (row_of_year c n e y) = omr_of_year c (nat (y - 1))"
  "emi (row_of_year c n e y) = (if y \<le> n then e else Fin 0)"
  "net (row_of_year c n e y) =
     gen_of_year c (nat (y - 1)) * tariff_of_year c (nat (y - 1)) - omr_of_year c (nat (y - 1))
       + (if y \<le> n then e else Fin 0)"
  by (simp_all add: row_of_year_def Let_def)

lemma row_emi:
  assumes "0 \<le> y" "y \<le> contractYears c"
  shows "emi (rows (buildYearlyProjection c) ! nat y) =
           (if 1 \<le> y \<and> y \<le> min (contractYears c) (loanTenureYears c)
            then emiAnnual (buildYearlyProjection c) else Fin 0)"
proof (cases "1 \<le> y")
  case True
  have "y \<le> loanNper_of c \<longleftrightarrow> y \<le> min (contractYears c) (loanTenureYears c)"
    using True by (auto simp add: loanNper_of_def)
  then show ?thesis
    using True assms by (simp add: rows_nth)
next
  case False
  with assms have "y = 0"
    by simp
  then show ?thesis
    by (simp add: rows_eq)
qed

lemma Math_pow_neg:
  assumes "0 < n" "x \<noteq> 0"
  shows "Math_pow (Fin x) (- n) = Fin (1 / x ^ nat n)"
  using assms by (simp add: Math_pow.simps)

lemma pmt_denominator:
  assumes "1 \<le> nper" "0 < r"
  shows "\<exists>d. Fin 1 - Math_pow (Fin 1 + Fin r) (- nper) = Fin d \<and> 0 < d"
proof -
  define q where "q = (1 + r) ^ nat nper"
  have "0 < nat nper"
    using assms by simp
  then have "1 < q"
    unfolding q_def using assms by (intro one_less_power) simp_all
  then have "0 < 1 - 1 / q"
    by simp
  moreover have "Math_pow (Fin (1 + r)) (- nper) = Fin (1 / q)"
    using assms by (simp add: Math_pow_neg q_def)
  ultimately show ?thesis
    by (simp add: js_arith_defs)
qed

lemma pmt_not_positive:
  assumes "1 \<le> nper" "js_le (Fin 0) pv" "js_le (Fin 0) rate"
  shows "js_le (pmt rate nper pv) (Fin 0) \<or> pmt rate nper pv = NaN"
proof (cases rate)
  case (Fin r)
  with assms(3) have r: "0 \<le> r"
    by simp
  show ?thesis
  proof (cases "r = 0")
    case True
    then have e: "pmt rate nper pv = - (pv / Fin (of_int nper))"
      using Fin by (simp add: pmt_def)
    show ?thesis
      unfolding e using assms(1,2) by (cases pv) (simp_all add: js_arith_defs)
  next
    case False
    with r have pos: "0 < r"
      by simp
    obtain d where d: "Fin 1 - Math_pow (Fin 1 + Fin r) (- nper) = Fin d" "0 < d"
      using pmt_denominator [OF assms(1) pos] by blast
    have p: "pmt rate nper pv = - (pv * Fin r) / Fin d"
      using Fin False d(1) by (simp add: pmt_def)
    show ?thesis
    proof (cases pv)
      case (Fin a)
      with assms(2) have "0 \<le> a"
        by simp
      then have "0 \<le> a * r / d"
        using pos d(2) by simp
      then show ?thesis
        unfolding p using Fin d(2) by (simp add: js_arith_defs)
    next
      case PInf
      then show ?thesis
        unfolding p using pos d(2) by (simp add: js_arith_defs)
    next
      case NInf
      with assms(2) show ?thesis by simp
    next
      case NaN
      with assms(2) show ?thesis by simp
    qed
  qed
next
  case PInf
  have "Fin 1 - Math_pow (Fin 1 + PInf) (- nper) = Fin 1"
    using assms(1) by (simp add: js_arith_defs Math_pow.simps)
  then have p: "pmt rate nper pv = - (pv * PInf) / Fin 1"
    using PInf by (simp add: pmt_def)
  show ?thesis
    unfolding p using assms(2) by (cases pv) (simp_all add: js_arith_defs)
next
  case NInf
  with assms(3) show ?thesis by simp
next
  case NaN
  with assms(3) show ?thesis by simp
qed

lemma rate_not_negative:
  "js_le (Fin 0) i \<Longrightarrow> js_le (Fin 0) (i / Fin 100)"
  by (cases i) (simp_all add: js_arith_defs)

lemma loanAmount_eq:
  "loanAmount (buildYearlyProjection c) =
     capacityKw c * capexPerKw c - upfrontPercent c / Fin 100 * (capacityKw c * capexPerKw c)"
  by (simp add: buildYearlyProjection_def Let_def)

lemma small_loan:
  "loanAmount (buildYearlyProjection small_config) = Fin 8000"
  "emiAnnual (buildYearlyProjection small_config) = Fin (- 4000)"
  by (simp_all add: emiAnnual_eq loanAmount_eq loanNper_of_def small_config_def pmt_def
      js_arith_defs)

text \<open>
  Claim C1, as amended. For every row \<open>y\<close> of the projection, \<open>emi\<close> is the annual
  installment \<open>emiAnnual\<close> when \<open>1 \<le> y \<le> min(contractYears, loanTenureYears)\<close> and 0
  otherwise; so it is non-zero exactly when \<open>y\<close> is in that window and \<open>emiAnnual\<close> is
  itself non-zero. Both sides are the program's own values: the statement does not
  depend on how the installment is rounded.
\<close>

theorem loan_window:
  assumes "0 \<le> y" "y \<le> contractYears c"
  shows "emi (rows (buildYearlyProjection c) ! nat y) =
           (if 1 \<le> y \<and> y \<le> min (contractYears c) (loanTenureYears c)
            then emiAnnual (buildYearlyProjection c) else Fin 0)
       \<and> (emi (rows (buildYearlyProjection c) ! nat y) \<noteq> Fin 0 \<longleftrightarrow>
            1 \<le> y \<and> y \<le> min (contractYears c) (loanTenureYears c)
            \<and> emiAnnual (buildYearlyProjection c) \<noteq> Fin 0)"
  using row_emi [OF assms] by auto

theorem loan_window_witness:
  "(0::int) \<le> 1 \<and> 1 \<le> contractYears small_config
   \<and> emi (rows (buildYearlyProjection small_config) ! 1) = Fin (- 4000)
   \<and> emi (rows (buildYearlyProjection small_config) ! 1) \<noteq> Fin 0
   \<and> emi (rows (buildYearlyProjection small_config) ! 0) = Fin 0
   \<and> emi (rows (buildYearlyProjection default_config) ! 7)
       = emiAnnual (buildYearlyProjection default_config)
   \<and> emi (rows (buildYearlyProjection default_config) ! 8) = Fin 0"
proof -
  have c: "contractYears small_config = 2" "loanTenureYears small_config = 2"
    "contractYears default_config = 20" "loanTenureYears default_config = 7"
    by (simp_all add: small_config_def default_config_def)
  show ?thesis
    using loan_window [of 1 small_config] loan_window [of 0 small_config]
      loan_window [of 7 default_config] loan_window [of 8 default_config]
    by (simp add: c small_loan)
qed

text \<open>
  The claim as stated fails when nothing is financed: the installment is 0 inside the
  loan window too.
\<close>

theorem loan_window_counterexample:
  "0 < contractYears full_equity_config
   \<and> 1 \<le> min (contractYears full_equity_config) (loanTenureYears full_equity_config)
   \<and> emi (rows (buildYearlyProjection full_equity_config) ! 1) = Fin 0"
proof -
  have c: "contractYears full_equity_config = 20" "loanTenureYears full_equity_config = 7"
    by (simp_all add: full_equity_config_def default_config_def)
  have "emiAnnual (buildYearlyProjection full_equity_config) = Fin 0"
    by (simp add: emiAnnual_eq loanAmount_eq loanNper_of_def full_equity_config_def
        default_config_def pmt_def Math_pow.simps js_arith_defs power_divide)
  then show ?thesis
    using row_emi [of 1 full_equity_config] by (simp add: c)
qed

lemma emiAnnual_not_positive:
  assumes "js_le (Fin 0) (loanAmount (buildYearlyProjection c))"
    and "js_le (Fin 0) (loanInterestPct c)"
  shows "js_le (emiAnnual (buildYearlyProjection c)) (Fin 0)
       \<or> emiAnnual (buildYearlyProjection c) = NaN"
proof (cases "0 < loanNper_of c")
  case False
  then show ?thesis
    by (simp add: emiAnnual_eq)
next
  case True
  then have "1 \<le> loanNper_of c"
    by simp
  from pmt_not_positive [OF this assms(1) rate_not_negative [OF assms(2)]] True
  show ?thesis
    by (simp add: emiAnnual_eq)
qed

lemma row_emi_cases:
  "r \<in> set (rows (buildYearlyProjection c)) \<Longrightarrow>
   emi r = Fin 0 \<or> emi r = emiAnnual (buildYearlyProjection c)"
  by (auto simp add: rows_eq)

text \<open>
  Claim C2, as amended. When the financed amount \<open>loanAmount\<close> of the summary is \<open>\<ge> 0\<close>
  and the loan interest is \<open>\<ge> 0\<close>, the annual installment is never positive: it is
  \<open>\<le> 0\<close> or NaN. The \<open>emi\<close> of every row is 0 or that installment, hence never
  positive either.
\<close>

theorem installment_not_positive:
  assumes "js_le (Fin 0) (loanAmount (buildYearlyProjection c))"
    and "js_le (Fin 0) (loanInterestPct c)"
  shows "(js_le (emiAnnual (buildYearlyProjection c)) (Fin 0)
          \<or> emiAnnual (buildYearlyProjection c) = NaN)
       \<and> (\<forall>r \<in> set (rows (buildYearlyProjection c)).
             (emi r = Fin 0 \<or> emi r = emiAnnual (buildYearlyProjection c))
             \<and> (js_le (emi r) (Fin 0) \<or> emi r = NaN))"
proof -
  note e = emiAnnual_not_positive [OF assms]
  have "(emi r = Fin 0 \<or> emi r = emiAnnual (buildYearlyProjection c))
        \<and> (js_le (emi r) (Fin 0) \<or> emi r = NaN)"
    if "r \<in> set (rows (buildYearlyProjection c))" for r
    using row_emi_cases [OF that] e by auto
  with e show ?thesis
    by blast
qed

theorem installment_not_positive_witness:
  "js_le (Fin 0) (loanAmount (buildYearlyProjection small_config))
   \<and> js_le (Fin 0) (loanInterestPct small_config)
   \<and> emiAnnual (buildYearlyProjection small_config) = Fin (- 4000)
   \<and> js_le (emiAnnual (buildYearlyProjection small_config)) (Fin 0)
   \<and> js_le (emi (rows (buildYearlyProjection small_config) ! 1)) (Fin 0)"
proof -
  have h: "js_le (Fin 0) (loanAmount (buildYearlyProjection small_config))"
    "js_le (Fin 0) (loanInterestPct small_config)"
    by (simp_all add: small_loan) (simp add: small_config_def)
  have "rows (buildYearlyProjection small_config) ! 1
          \<in> set (rows (buildYearlyProjection small_config))"
    by (intro nth_mem) (simp add: length_rows small_config_def)
  then show ?thesis
    using installment_not_positive [OF h] h by (auto simp add: small_loan)
qed

text \<open>
  The claim as stated, with no restriction on the inputs, fails at an upfront share of
  150 percent: the financed amount is negative and the installment positive. It also
  fails at a negative interest (-300 percent over one year: the installment is
  positive), and with nothing financed at an infinite interest the installment is NaN,
  which is not \<open>\<le> 0\<close>.
\<close>

theorem installment_not_positive_counterexample:
  "\<not> js_le (emiAnnual (buildYearlyProjection over_equity_config)) (Fin 0)
   \<and> \<not> js_le (emi (rows (buildYearlyProjection over_equity_config) ! 1)) (Fin 0)
   \<and> emiAnnual (buildYearlyProjection negative_interest_config) = Fin 3360000
   \<and> emiAnnual (buildYearlyProjection infinite_interest_config) = NaN"
proof -
  have c: "contractYears over_equity_config = 20" "loanTenureYears over_equity_config = 7"
    by (simp_all add: over_equity_config_def default_config_def)
  have a: "\<not> js_le (emiAnnual (buildYearlyProjection over_equity_config)) (Fin 0)"
    by (simp add: emiAnnual_eq loanAmount_eq loanNper_of_def over_equity_config_def
        default_config_def pmt_def Math_pow.simps js_arith_defs power_divide)
  have b: "emiAnnual (buildYearlyProjection negative_interest_config) = Fin 3360000"
    by (simp add: emiAnnual_eq loanAmount_eq loanNper_of_def negative_interest_config_def
        default_config_def pmt_def Math_pow.simps js_arith_defs)
  have d: "emiAnnual (buildYearlyProjection infinite_interest_config) = NaN"
    by (simp add: emiAnnual_eq loanAmount_eq loanNper_of_def infinite_interest_config_def
        full_equity_config_def default_config_def pmt_def Math_pow.simps js_arith_defs)
  from a b d show ?thesis
    using row_emi [of 1 over_equity_config] by (simp add: c)
qed

subsection \<open>Escalation\<close>

text \<open>
  Claim C6. From year 2 on, the tariff and the O&M cost of a row are those of the row
  before, times \<open>1 + tariffEscalationPct/100\<close> and \<open>1 + omrEscalationPct/100\<close>, and the
  generation before rounding (\<open>gen_of_year\<close>, of which the row holds the rounded value
  and the revenue) is that of the year before times \<open>1 - degradationPct/100\<close>. Year 1 has
  the base tariff, the base O&M cost and the base generation.
\<close>

theorem escalation:
  "(2 \<le> y \<and> y \<le> contractYears c \<longrightarrow>
      tariff (rows (buildYearlyProjection c) ! nat y)
        = tariff (rows (buildYearlyProjection c) ! nat (y - 1))
            * (Fin 1 + tariffEscalationPct c / Fin 100)
      \<and> omr (rows (buildYearlyProjection c) ! nat y)
        = omr (rows (buildYearlyProjection c) ! nat (y - 1))
            * (Fin 1 + omrEscalationPct c / Fin 100)
      \<and> gen_of_year c (nat (y - 1))
        = gen_of_year c (nat (y - 2)) * (Fin 1 - degradationPct c / Fin 100))
   \<and> (1 \<le> y \<and> y \<le> contractYears c \<longrightarrow>
      generationKwh (rows (buildYearlyProjection c) ! nat y)
        = Math_round (gen_of_year c (nat (y - 1)))
      \<and> revenue (rows (buildYearlyProjection c) ! nat y)
        = gen_of_year c (nat (y - 1)) * tariff (rows (buildYearlyProjection c) ! nat y))
   \<and> (1 \<le> contractYears c \<longrightarrow>
      tariff (rows (buildYearlyProjection c) ! 1) = ppaTariff c
      \<and> omr (rows (buildYearlyProjection c) ! 1) = capacityKw c * omrPerKwYear c
      \<and> generationKwh (rows (buildYearlyProjection c) ! 1)
        = Math_round (capacityKw c * unitsPerKwDay c * Fin 365)
      \<and> gen_of_year c 0 = capacityKw c * unitsPerKwDay c * Fin 365)"
proof -
  have a: "tariff (rows (buildYearlyProjection c) ! nat y)
        = tariff (rows (buildYearlyProjection c) ! nat (y - 1))
            * (Fin 1 + tariffEscalationPct c / Fin 100)
      \<and> omr (rows (buildYearlyProjection c) ! nat y)
        = omr (rows (buildYearlyProjection c) ! nat (y - 1))
            * (Fin 1 + omrEscalationPct c / Fin 100)
      \<and> gen_of_year c (nat (y - 1))
        = gen_of_year c (nat (y - 2)) * (Fin 1 - degradationPct c / Fin 100)"
    if "2 \<le> y" "y \<le> contractYears c"
  proof -
    have k: "nat (y - 1) = Suc (nat (y - 2))"
      using that by simp
    have r1: "rows (buildYearlyProjection c) ! nat y
        = row_of_year c (loanNper_of c) (emiAnnual (buildYearlyProjection c)) y"
      using that by (intro rows_nth) simp_all
    have r2: "rows (buildYearlyProjection c) ! nat (y - 1)
        = row_of_year c (loanNper_of c) (emiAnnual (buildYearlyProjection c)) (y - 1)"
      using that by (intro rows_nth) simp_all
    have m: "y - 1 - 1 = y - 2"
      by simp
    show ?thesis
      unfolding r1 r2 by (simp add: k m)
  qed
  have b: "generationKwh (rows (buildYearlyProjection c) ! nat y)
        = Math_round (gen_of_year c (nat (y - 1)))
      \<and> revenue (rows (buildYearlyProjection c) ! nat y)
        = gen_of_year c (nat (y - 1)) * tariff (rows (buildYearlyProjection c) ! nat y)"
    if "1 \<le> y" "y \<le> contractYears c"
    using that by (simp add: rows_nth)
  have d: "tariff (rows (buildYearlyProjection c) ! 1) = ppaTariff c
      \<and> omr (rows (buildYearlyProjection c) ! 1) = capacityKw c * omrPerKwYear c
      \<and> generationKwh (rows (buildYearlyProjection c) ! 1)
        = Math_round (capacityKw c * unitsPerKwDay c * Fin 365)
      \<and> gen_of_year c 0 = capacityKw c * unitsPerKwDay c * Fin 365"
    if "1 \<le> contractYears c"
    using that rows_nth [of 1 c] by simp
  from a b d show ?thesis
    by blast
qed

theorem escalation_witness:
  "(2::int) \<le> 2 \<and> 2 \<le> contractYears default_config
   \<and> tariff (rows (buildYearlyProjection default_config) ! 1) = Fin 5
   \<and> tariff (rows (buildYearlyProjection default_config) ! 2) = Fin (51 / 10)
   \<and> omr (rows (buildYearlyProjection default_config) ! 1) = Fin 40000
   \<and> omr (rows (buildYearlyProjection default_config) ! 2) = Fin 41200
   \<and> generationKwh (rows (buildYearlyProjection default_config) ! 1) = Fin 76650
   \<and> generationKwh (rows (buildYearlyProjection default_config) ! 2) = Fin 76190"
proof -
  have c: "contractYears default_config = 20" "ppaTariff default_config = Fin 5"
    "tariffEscalationPct default_config = Fin 2" "omrEscalationPct default_config = Fin 3"
    "capacityKw default_config = Fin 50" "omrPerKwYear default_config = Fin 800"
    "unitsPerKwDay default_config = Fin (21 / 5)" "degradationPct default_config = Fin (3 / 5)"
    by (simp_all add: default_config_def)
  have n: "nat 2 = 2" "nat (2 - 1) = 1" "nat (2 - 2) = 0"
    by simp_all
  show ?thesis
    using escalation [of 2 default_config]
    by (simp add: c js_arith_defs)
qed

subsection \<open>Running totals\<close>

lemma cumulative_reduce_length:
  "length (cumulative_reduce acc rs) = length acc + length rs"
  by (induction rs arbitrary: acc) (simp_all add: Let_def)

lemma cumulative_reduce_prefix:
  "i < length acc \<Longrightarrow> cumulative_reduce acc rs ! i = acc ! i"
  by (induction rs arbitrary: acc) (simp_all add: Let_def nth_append)

lemma cumulative_reduce_nth:
  "i < length rs \<Longrightarrow>
   cumulative_reduce acc rs ! (length acc + i) =
     \<lparr>cyear = year (rs ! i),
      cvalue = foldl (+) (if acc \<noteq> [] then cvalue (last acc) else Fin 0)
                 (map net (take (Suc i) rs))\<rparr>"
proof (induction rs arbitrary: acc i)
  case Nil
  then show ?case by simp
next
  case (Cons r rs)
  define prev where "prev = (if acc \<noteq> [] then cvalue (last acc) else Fin 0)"
  define acc' where "acc' = acc @ [\<lparr>cyear = year r, cvalue = prev + net r\<rparr>]"
  have step: "cumulative_reduce acc (r # rs) = cumulative_reduce acc' rs"
    by (simp add: acc'_def prev_def Let_def)
  show ?case
  proof (cases i)
    case 0
    have "cumulative_reduce acc' rs ! length acc = acc' ! length acc"
      by (rule cumulative_reduce_prefix) (simp add: acc'_def)
    then show ?thesis
      using 0 by (simp add: step acc'_def prev_def)
  next
    case (Suc j)
    then have j: "j < length rs"
      using Cons.prems by simp
    have "cumulative_reduce acc' rs ! (length acc' + j) =
       \<lparr>cyear = year (rs ! j),
        cvalue = foldl (+) (if acc' \<noteq> [] then cvalue (last acc') else Fin 0)
                   (map net (take (Suc j) rs))\<rparr>"
      by (rule Cons.IH [OF j])
    then show ?thesis
      using Suc by (simp add: step acc'_def prev_def)
  qed
qed

lemma running_total_length: "length (running_total cum rs) = length rs"
  by (induction rs arbitrary: cum) (simp_all add: Let_def)

lemma running_total_nth:
  "i < length rs \<Longrightarrow>
   running_total cum rs ! i = foldl (+) cum (map m_net (take (Suc i) rs))"
proof (induction rs arbitrary: cum i)
  case Nil
  then show ?case by simp
next
  case (Cons r rs)
  then show ?case
    by (cases i) (simp_all add: Let_def)
qed

lemma rows_not_Nil: "rows (buildYearlyProjection c) \<noteq> []"
  by (simp add: rows_eq)

lemma monthly_of_yearly:
  "\<exists>m. buildMonthlyProjection (buildYearlyProjection c) = Inr m"
  using rows_not_Nil [of c]
  by (cases "rows (buildYearlyProjection c)") (simp_all add: buildMonthlyProjection_def Let_def)

lemma cumulative_eq:
  "cumulative (buildYearlyProjection c) = cumulative_reduce [] (rows (buildYearlyProjection c))"
  by (simp add: buildYearlyProjection_def Let_def)

lemma m_cumulative_eq:
  "buildMonthlyProjection yearly = Inr m \<Longrightarrow>
   m_cumulative m = running_total (Fin 0) (m_rows m)"
  by (auto simp add: buildMonthlyProjection_def Let_def split: list.splits)

text \<open>
  Claim C5. The cumulative series of the yearly summary is aligned with its rows, and
  its entry \<open>i\<close> holds the year of row \<open>i\<close> and the sum of the \<open>net\<close> of rows 0 to
  \<open>i\<close>; the monthly projection of the summary exists, and the cumulative series of any
  monthly projection is aligned with its rows and holds at \<open>i\<close> the sum of the \<open>net\<close>
  of its rows 0 to \<open>i\<close>.
\<close>

theorem cumulative_consistency:
  "length (cumulative (buildYearlyProjection c)) = length (rows (buildYearlyProjection c))
   \<and> (\<forall>i < length (rows (buildYearlyProjection c)).
         cvalue (cumulative (buildYearlyProjection c) ! i)
           = js_sum (map net (take (i + 1) (rows (buildYearlyProjection c))))
         \<and> cyear (cumulative (buildYearlyProjection c) ! i)
           = year (rows (buildYearlyProjection c) ! i))
   \<and> (\<exists>m. buildMonthlyProjection (buildYearlyProjection c) = Inr m)
   \<and> (buildMonthlyProjection yearly = Inr m \<longrightarrow>
         length (m_cumulative m) = length (m_rows m)
         \<and> (\<forall>i < length (m_rows m).
               m_cumulative m ! i = js_sum (map m_net (take (i + 1) (m_rows m)))))"
proof -
  have a: "length (cumulative (buildYearlyProjection c)) = length (rows (buildYearlyProjection c))"
    by (simp add: cumulative_eq cumulative_reduce_length)
  have b: "cvalue (cumulative (buildYearlyProjection c) ! i)
           = js_sum (map net (take (i + 1) (rows (buildYearlyProjection c))))
         \<and> cyear (cumulative (buildYearlyProjection c) ! i)
           = year (rows (buildYearlyProjection c) ! i)"
    if "i < length (rows (buildYearlyProjection c))" for i
    using cumulative_reduce_nth [OF that, of "[]"] by (simp add: cumulative_eq js_sum_def)
  have d: "length (m_cumulative m) = length (m_rows m)
         \<and> (\<forall>i < length (m_rows m).
               m_cumulative m ! i = js_sum (map m_net (take (i + 1) (m_rows m))))"
    if "buildMonthlyProjection yearly = Inr m"
    using m_cumulative_eq [OF that]
    by (simp add: running_total_length running_total_nth js_sum_def)
  from a b d monthly_of_yearly [of c] show ?thesis
    by blast
qed

subsection \<open>Payback year\<close>

lemma payback_loop_None:
  "payback_loop cum i0 rs = None \<longleftrightarrow>
     (\<forall>j < length rs. \<not> js_ge (foldl (+) cum (map net (take (Suc j) rs))) (Fin 0))"
  by (induction rs arbitrary: cum i0) (simp_all add: Let_def All_less_Suc2)

lemma payback_loop_Some:
  "payback_loop cum i0 rs = Some k \<longleftrightarrow>
     i0 \<le> k \<and> k - i0 < length rs
     \<and> js_ge (foldl (+) cum (map net (take (Suc (k - i0)) rs))) (Fin 0)
     \<and> (\<forall>j < k - i0. \<not> js_ge (foldl (+) cum (map net (take (Suc j) rs))) (Fin 0))"
proof (induction rs arbitrary: cum i0)
  case Nil
  then show ?case by simp
next
  case (Cons r rs)
  show ?case
  proof (cases "js_ge (cum + net r) (Fin 0)")
    case True
    have "k = i0" if "i0 \<le> k"
      "\<forall>j < k - i0. \<not> js_ge (foldl (+) cum (map net (take (Suc j) (r # rs)))) (Fin 0)"
    proof (rule ccontr)
      assume "k \<noteq> i0"
      with that(1) have "0 < k - i0" by simp
      with that(2) have "\<not> js_ge (foldl (+) cum (map net (take (Suc 0) (r # rs)))) (Fin 0)"
        by blast
      with True show False by simp
    qed
    with True show ?thesis
      by (auto simp add: Let_def)
  next
    case False
    show ?thesis
    proof (cases "k \<le> i0")
      case le: True
      with False show ?thesis
        by (auto simp add: Let_def Cons.IH)
    next
      case gt: False
      then obtain d where d: "k - i0 = Suc d" "k - (i0 + 1) = d"
        by (cases "k - i0") auto
      with False gt show ?thesis
        by (simp add: Let_def Cons.IH All_less_Suc2)
    qed
  qed
qed

lemma paybackYear_eq:
  "paybackYear (buildYearlyProjection c) = payback_loop (Fin 0) 0 (rows (buildYearlyProjection c))"
  by (simp add: buildYearlyProjection_def Let_def)

text \<open>
  Claim C7. \<open>paybackYear\<close> is the first row index at which the sum of the \<open>net\<close> of rows
  0 to that index is \<open>\<ge> 0\<close>, and it is \<open>null\<close> exactly when that sum is \<open>\<ge> 0\<close> at no row
  index.
\<close>

theorem payback_first_nonnegative:
  "(paybackYear (buildYearlyProjection c) = Some i \<longleftrightarrow>
      i < length (rows (buildYearlyProjection c))
      \<and> js_ge (js_sum (map net (take (i + 1) (rows (buildYearlyProjection c))))) (Fin 0)
      \<and> (\<forall>j < i. \<not> js_ge (js_sum (map net (take (j + 1) (rows (buildYearlyProjection c)))))
                     (Fin 0)))
   \<and> (paybackYear (buildYearlyProjection c) = None \<longleftrightarrow>
      (\<forall>j < length (rows (buildYearlyProjection c)).
         \<not> js_ge (js_sum (map net (take (j + 1) (rows (buildYearlyProjection c))))) (Fin 0)))"
  by (simp add: paybackYear_eq payback_loop_Some payback_loop_None js_sum_def)

subsection \<open>Two small projections\<close>

lemma upto_1_2: "[1..2] = [1, 2::int]"
  by (simp add: upto_rec1)

lemma small_rows:
  "rows (buildYearlyProjection small_config) =
     [\<lparr>year = 0, generationKwh = Fin 0, tariff = Fin 0, revenue = Fin 0, omr = Fin 0,
       emi = Fin 0, net = Fin (- 2000)\<rparr>,
      \<lparr>year = 1, generationKwh = Fin 1460, tariff = Fin 5, revenue = Fin 7300, omr = Fin 800,
       emi = Fin (- 4000), net = Fin 2500\<rparr>,
      \<lparr>year = 2, generationKwh = Fin 1460, tariff = Fin 5, revenue = Fin 7300, omr = Fin 800,
       emi = Fin (- 4000), net = Fin 2500\<rparr>]"
proof -
  have e: "emiAnnual (buildYearlyProjection small_config) = Fin (- 4000)"
    by (simp add: emiAnnual_eq loanAmount_eq loanNper_of_def small_config_def pmt_def
        js_arith_defs)
  have u: "upfront (buildYearlyProjection small_config) = Fin 2000"
    by (simp add: buildYearlyProjection_def Let_def small_config_def js_arith_defs)
  have n: "loanNper_of small_config = 2" "contractYears small_config = 2"
    by (simp_all add: loanNper_of_def small_config_def)
  show ?thesis
    unfolding rows_eq e u n upto_1_2
    by (simp add: row_of_year_def Let_def small_config_def js_arith_defs)
qed

lemma unpaid_rows:
  "rows (buildYearlyProjection unpaid_config) =
     [\<lparr>year = 0, generationKwh = Fin 0, tariff = Fin 0, revenue = Fin 0, omr = Fin 0,
       emi = Fin 0, net = Fin (- 2000)\<rparr>,
      \<lparr>year = 1, generationKwh = Fin 1460, tariff = Fin 0, revenue = Fin 0, omr = Fin 800,
       emi = Fin (- 4000), net = Fin (- 4800)\<rparr>,
      \<lparr>year = 2, generationKwh = Fin 1460, tariff = Fin 0, revenue = Fin 0, omr = Fin 800,
       emi = Fin (- 4000), net = Fin (- 4800)\<rparr>]"
proof -
  have e: "emiAnnual (buildYearlyProjection unpaid_config) = Fin (- 4000)"
    by (simp add: emiAnnual_eq loanAmount_eq loanNper_of_def unpaid_config_def small_config_def
        pmt_def js_arith_defs)
  have u: "upfront (buildYearlyProjection unpaid_config) = Fin 2000"
    by (simp add: buildYearlyProjection_def Let_def unpaid_config_def small_config_def
        js_arith_defs)
  have n: "loanNper_of unpaid_config = 2" "contractYears unpaid_config = 2"
    by (simp_all add: loanNper_of_def unpaid_config_def small_config_def)
  show ?thesis
    unfolding rows_eq e u n upto_1_2
    by (simp add: row_of_year_def Let_def unpaid_config_def small_config_def js_arith_defs)
qed

theorem payback_first_nonnegative_witness:
  "paybackYear (buildYearlyProjection small_config) = Some 1
   \<and> paybackYear (buildYearlyProjection unpaid_config) = None"
  using payback_first_nonnegative [of small_config 1]
    payback_first_nonnegative [of unpaid_config]
  by (simp add: small_rows unpaid_rows js_sum_def js_ge_def All_less_Suc eval_nat_numeral)

subsection \<open>The rows of the monthly projection\<close>

lemma monthly_loop_eq:
  "monthly_loop y yrs rs =
     rs @ concat (map (\<lambda>k. month_rows_of (y + k) (yrs ! k)) [0..<length yrs])"
proof (induction yrs arbitrary: y rs)
  case Nil
  then show ?case by simp
next
  case (Cons yr yrs)
  show ?case
    by (simp add: Cons.IH map_upt_Suc del: upt_Suc)
qed

lemma length_month_rows_of [simp]: "length (month_rows_of y yr) = 12"
  by (simp add: month_rows_of_def Let_def)

lemma month_rows_of_nth:
  "j < 12 \<Longrightarrow>
   month_rows_of y yr ! j =
     \<lparr>key = ''Y'' @ show_nat y @ ''-M'' @ show_nat (j + 1),
      label = ''Y'' @ show_nat y,
      month = months ! j,
      m_generationKwh = Math_round (generationKwh yr / Fin 12),
      m_tariff = tariff yr,
      m_revenue = revenue yr / Fin 12,
      m_omr = omr yr / Fin 12,
      m_emi = emi yr / Fin 12,
      m_net = net yr / Fin 12\<rparr>"
  unfolding month_rows_of_def Let_def by (subst nth_map) simp_all

lemma length_concat_blocks:
  "(\<And>k. k < n \<Longrightarrow> length (f k) = b) \<Longrightarrow> length (concat (map f [0..<n])) = n * b"
  by (induction n) simp_all

lemma concat_blocks_nth:
  "(\<And>k. k < n \<Longrightarrow> length (f k) = b) \<Longrightarrow> k < n \<Longrightarrow> j < b \<Longrightarrow>
   concat (map f [0..<n]) ! (k * b + j) = f k ! j"
proof (induction n)
  case 0
  then show ?case by simp
next
  case (Suc n)
  have len: "length (concat (map f [0..<n])) = n * b"
    using Suc.prems(1) by (intro length_concat_blocks) simp
  show ?case
  proof (cases "k < n")
    case True
    then have "k * b + j < n * b"
      using Suc.prems(3)
      by (metis add.commute mult_Suc less_le_trans add_less_cancel_left mult_le_mono1 Suc_leI)
    moreover have "concat (map f [0..<n]) ! (k * b + j) = f k ! j"
      using Suc.prems True by (intro Suc.IH) simp_all
    ultimately show ?thesis
      by (simp add: nth_append len)
  next
    case False
    with Suc.prems(2) have "k = n" by simp
    then show ?thesis
      by (simp add: nth_append len)
  qed
qed

lemma m_rows_eq:
  assumes "rows yearly = r0 # yrs"
  shows "\<exists>m. buildMonthlyProjection yearly = Inr m
       \<and> m_rows m =
           \<lparr>key = ''Y0-M0'', label = ''Y0'', month = ''-'', m_generationKwh = Fin 0,
            m_tariff = Fin 0, m_revenue = Fin 0, m_omr = Fin 0, m_emi = Fin 0,
            m_net = net r0\<rparr>
           # concat (map (\<lambda>k. month_rows_of (1 + k) (yrs ! k)) [0..<length yrs])"
  using assms by (simp add: buildMonthlyProjection_def Let_def monthly_loop_eq)

lemma m_rows_nth:
  assumes "buildMonthlyProjection yearly = Inr m" "1 \<le> y" "y < length (rows yearly)" "j < 12"
  shows "m_rows m ! (12 * (y - 1) + 1 + j) = month_rows_of y (rows yearly ! y) ! j"
proof -
  obtain r0 yrs where r: "rows yearly = r0 # yrs"
    using assms(3) by (cases "rows yearly") auto
  obtain k where k: "y = Suc k"
    using assms(2) by (cases y) auto
  have kl: "k < length yrs"
    using assms(3) r k by simp
  have "concat (map (\<lambda>k. month_rows_of (1 + k) (yrs ! k)) [0..<length yrs]) ! (k * 12 + j)
          = month_rows_of (1 + k) (yrs ! k) ! j"
    using kl assms(4) by (intro concat_blocks_nth) simp_all
  moreover have "12 * (y - 1) + 1 + j = Suc (k * 12 + j)"
    using k by simp
  ultimately show ?thesis
    using m_rows_eq [OF r] assms(1) r k by (simp add: mult.commute)
qed

lemma length_m_rows:
  assumes "buildMonthlyProjection yearly = Inr m"
  shows "length (m_rows m) = 12 * (length (rows yearly) - 1) + 1"
proof -
  obtain r0 yrs where r: "rows yearly = r0 # yrs"
    using assms by (cases "rows yearly") (auto simp add: buildMonthlyProjection_def)
  have "length (concat (map (\<lambda>k. month_rows_of (1 + k) (yrs ! k)) [0..<length yrs]))
          = length yrs * 12"
    by (intro length_concat_blocks) simp
  then show ?thesis
    using m_rows_eq [OF r] assms r by simp
qed

lemma sum_twelfths: "js_sum (map (\<lambda>j. v / Fin 12) [0..<12]) = v"
  by (cases v) (simp_all add: js_sum_def map_replicate_const eval_nat_numeral js_arith_defs)

text \<open>
  Claim C4. The monthly projection of a yearly projection has one row for year 0 and
  twelve rows per contract year. The twelve rows of year \<open>y\<close> carry its label and the
  twelve month names, a twelfth of the year's revenue, O&M cost, installment and net,
  the year's tariff, and a twelfth of the year's generation, rounded; their \<open>net\<close> sum
  to the \<open>net\<close> of the year's row (exactly so in the arithmetic of this model, which
  does not round).
\<close>

theorem monthly_round_trip:
  assumes "1 \<le> y" "int y \<le> contractYears c"
  shows "\<exists>m. buildMonthlyProjection (buildYearlyProjection c) = Inr m
     \<and> length (m_rows m) = 12 * nat (contractYears c) + 1
     \<and> (\<forall>j < 12. m_rows m ! (12 * (y - 1) + 1 + j) =
           \<lparr>key = ''Y'' @ show_nat y @ ''-M'' @ show_nat (j + 1),
            label = ''Y'' @ show_nat y,
            month = months ! j,
            m_generationKwh =
              Math_round (generationKwh (rows (buildYearlyProjection c) ! y) / Fin 12),
            m_tariff = tariff (rows (buildYearlyProjection c) ! y),
            m_revenue = revenue (rows (buildYearlyProjection c) ! y) / Fin 12,
            m_omr = omr (rows (buildYearlyProjection c) ! y) / Fin 12,
            m_emi = emi (rows (buildYearlyProjection c) ! y) / Fin 12,
            m_net = net (rows (buildYearlyProjection c) ! y) / Fin 12\<rparr>)
     \<and> js_sum (map (\<lambda>j. m_net (m_rows m ! (12 * (y - 1) + 1 + j))) [0..<12])
         = net (rows (buildYearlyProjection c) ! y)"
proof -
  obtain m where m: "buildMonthlyProjection (buildYearlyProjection c) = Inr m"
    using monthly_of_yearly by blast
  have y: "y < length (rows (buildYearlyProjection c))"
    using assms by (simp add: length_rows)
  have len: "length (m_rows m) = 12 * nat (contractYears c) + 1"
    using length_m_rows [OF m] by (simp add: length_rows)
  have row: "m_rows m ! (12 * (y - 1) + 1 + j) =
           \<lparr>key = ''Y'' @ show_nat y @ ''-M'' @ show_nat (j + 1),
            label = ''Y'' @ show_nat y,
            month = months ! j,
            m_generationKwh =
              Math_round (generationKwh (rows (buildYearlyProjection c) ! y) / Fin 12),
            m_tariff = tariff (rows (buildYearlyProjection c) ! y),
            m_revenue = revenue (rows (buildYearlyProjection c) ! y) / Fin 12,
            m_omr = omr (rows (buildYearlyProjection c) ! y) / Fin 12,
            m_emi = emi (rows (buildYearlyProjection c) ! y) / Fin 12,
            m_net = net (rows (buildYearlyProjection c) ! y) / Fin 12\<rparr>"
    if "j < 12" for j
    using m_rows_nth [OF m assms(1) y that] month_rows_of_nth [OF that] by simp
  have "map (\<lambda>j. m_net (m_rows m ! (12 * (y - 1) + 1 + j))) [0..<12]
      = map (\<lambda>j. net (rows (buildYearlyProjection c) ! y) / Fin 12) [0..<12]"
  proof (rule map_cong [OF refl])
    fix j
    assume "j \<in> set [0..<12]"
    then have "j < 12"
      by simp
    from row [OF this]
    show "m_net (m_rows m ! (12 * (y - 1) + 1 + j))
            = net (rows (buildYearlyProjection c) ! y) / Fin 12"
      by simp
  qed
  then have "js_sum (map (\<lambda>j. m_net (m_rows m ! (12 * (y - 1) + 1 + j))) [0..<12])
         = net (rows (buildYearlyProjection c) ! y)"
    by (simp only: sum_twelfths)
  with m len row show ?thesis
    by blast
qed

theorem monthly_round_trip_witness:
  "(1::nat) \<le> 2 \<and> int 2 \<le> contractYears small_config
   \<and> (\<exists>m. buildMonthlyProjection (buildYearlyProjection small_config) = Inr m
        \<and> length (m_rows m) = 25
        \<and> m_rows m ! 24 =
             \<lparr>key = ''Y2-M12'', label = ''Y2'', month = ''Dec'', m_generationKwh = Fin 122,
              m_tariff = Fin 5, m_revenue = Fin (7300 / 12), m_omr = Fin (800 / 12),
              m_emi = Fin (- 4000 / 12), m_net = Fin (2500 / 12)\<rparr>
        \<and> js_sum (map (\<lambda>j. m_net (m_rows m ! (13 + j))) [0..<12]) = Fin 2500)"
proof -
  have c: "contractYears small_config = 2"
    by (simp add: small_config_def)
  have s: "show_nat 2 = ''2''" "show_nat 12 = ''12''"
    by (simp_all add: show_nat.simps)
  obtain m where m: "buildMonthlyProjection (buildYearlyProjection small_config) = Inr m"
    "length (m_rows m) = 12 * nat (contractYears small_config) + 1"
    "\<forall>j < 12. m_rows m ! (12 * (2 - 1) + 1 + j) =
           \<lparr>key = ''Y'' @ show_nat 2 @ ''-M'' @ show_nat (j + 1),
            label = ''Y'' @ show_nat 2,
            month = months ! j,
            m_generationKwh =
              Math_round (generationKwh (rows (buildYearlyProjection small_config) ! 2) / Fin 12),
            m_tariff = tariff (rows (buildYearlyProjection small_config) ! 2),
            m_revenue = revenue (rows (buildYearlyProjection small_config) ! 2) / Fin 12,
            m_omr = omr (rows (buildYearlyProjection small_config) ! 2) / Fin 12,
            m_emi = emi (rows (buildYearlyProjection small_config) ! 2) / Fin 12,
            m_net = net (rows (buildYearlyProjection small_config) ! 2) / Fin 12\<rparr>"
    "js_sum (map (\<lambda>j. m_net (m_rows m ! (12 * (2 - 1) + 1 + j))) [0..<12])
         = net (rows (buildYearlyProjection small_config) ! 2)"
    using monthly_round_trip [of 2 small_config] by (auto simp add: c)
  from m(3) [rule_format, of 11] have "m_rows m ! (12 * (2 - 1) + 1 + 11) =
           \<lparr>key = ''Y'' @ show_nat 2 @ ''-M'' @ show_nat (11 + 1),
            label = ''Y'' @ show_nat 2,
            month = months ! 11,
            m_generationKwh =
              Math_round (generationKwh (rows (buildYearlyProjection small_config) ! 2) / Fin 12),
            m_tariff = tariff (rows (buildYearlyProjection small_config) ! 2),
            m_revenue = revenue (rows (buildYearlyProjection small_config) ! 2) / Fin 12,
            m_omr = omr (rows (buildYearlyProjection small_config) ! 2) / Fin 12,
            m_emi = emi (rows (buildYearlyProjection small_config) ! 2) / Fin 12,
            m_net = net (rows (buildYearlyProjection small_config) ! 2) / Fin 12\<rparr>"
    by simp
  then have r: "m_rows m ! 24 =
             \<lparr>key = ''Y2-M12'', label = ''Y2'', month = ''Dec'', m_generationKwh = Fin 122,
              m_tariff = Fin 5, m_revenue = Fin (7300 / 12), m_omr = Fin (800 / 12),
              m_emi = Fin (- 4000 / 12), m_net = Fin (2500 / 12)\<rparr>"
    by (simp add: small_rows s months_def js_arith_defs)
  have "js_sum (map (\<lambda>j. m_net (m_rows m ! (13 + j))) [0..<12]) = Fin 2500"
    using m(4) by (simp add: small_rows)
  with m(1,2) r show ?thesis
    by (simp add: c)
qed

theorem cumulative_consistency_witness:
  "2 < length (rows (buildYearlyProjection small_config))
   \<and> cvalue (cumulative (buildYearlyProjection small_config) ! 2) = Fin 3000
   \<and> cyear (cumulative (buildYearlyProjection small_config) ! 2) = 2
   \<and> (\<exists>m. buildMonthlyProjection (buildYearlyProjection small_config) = Inr m
        \<and> 1 < length (m_rows m)
        \<and> m_cumulative m ! 1 = Fin (- 2000 + 2500 / 12))"
proof -
  obtain m where m: "buildMonthlyProjection (buildYearlyProjection small_config) = Inr m"
    using monthly_of_yearly by blast
  note t = cumulative_consistency [of small_config "buildYearlyProjection small_config" m]
  have len: "length (m_rows m) = 25"
    using length_m_rows [OF m] by (simp add: small_rows)
  have r0: "m_net (m_rows m ! 0) = Fin (- 2000)"
    using m_rows_eq [OF small_rows] m by auto
  have "m_rows m ! (12 * (1 - 1) + 1 + 0)
          = month_rows_of 1 (rows (buildYearlyProjection small_config) ! 1) ! 0"
    using m by (intro m_rows_nth) (simp_all add: small_rows)
  then have r1: "m_net (m_rows m ! 1) = Fin (2500 / 12)"
    by (simp add: month_rows_of_nth small_rows js_arith_defs)
  have tk: "take (Suc (Suc 0)) (m_rows m) = [m_rows m ! 0, m_rows m ! 1]"
    using len by (simp add: take_Suc_conv_app_nth)
  have a: "cvalue (cumulative (buildYearlyProjection small_config) ! 2) = Fin 3000
     \<and> cyear (cumulative (buildYearlyProjection small_config) ! 2) = 2"
    using t by (simp add: small_rows js_sum_def eval_nat_numeral)
  have "m_cumulative m ! 1 = js_sum (map m_net (take (1 + 1) (m_rows m)))"
    using t m len by simp
  then have "m_cumulative m ! 1 = js_sum [m_net (m_rows m ! 0), m_net (m_rows m ! 1)]"
    using tk by simp
  then have "m_cumulative m ! 1 = Fin (- 2000 + 2500 / 12)"
    unfolding r0 r1 by (simp add: js_sum_def)
  with a m len show ?thesis
    by (simp add: small_rows)
qed

subsection \<open>The scenario of the form's defaults\<close>

text \<open>
  Claim C8. With \<open>capacityKw = 50\<close>, \<open>unitsPerKwDay = 4.2\<close>, \<open>contractYears = 20\<close>,
  \<open>ppaTariff = 5.0\<close>, \<open>capexPerKw = 42000\<close> and \<open>upfrontPercent = 20\<close>, whatever the other
  inputs, the summary has \<open>capexTotal = 2100000\<close>, \<open>upfront = 420000\<close>,
  \<open>year1Gen = round(50 * 4.2 * 365) = 76650\<close> and \<open>year1Revenue = 383250\<close>.
\<close>

theorem concrete_scenario:
  "capexTotal (buildYearlyProjection
       (c\<lparr>capacityKw := Fin 50, unitsPerKwDay := Fin (42 / 10), contractYears := 20,
          ppaTariff := Fin 5, capexPerKw := Fin 42000, upfrontPercent := Fin 20\<rparr>))
     = Fin 2100000
   \<and> upfront (buildYearlyProjection
       (c\<lparr>capacityKw := Fin 50, unitsPerKwDay := Fin (42 / 10), contractYears := 20,
          ppaTariff := Fin 5, capexPerKw := Fin 42000, upfrontPercent := Fin 20\<rparr>))
     = Fin 420000
   \<and> year1Gen (buildYearlyProjection
       (c\<lparr>capacityKw := Fin 50, unitsPerKwDay := Fin (42 / 10), contractYears := 20,
          ppaTariff := Fin 5, capexPerKw := Fin 42000, upfrontPercent := Fin 20\<rparr>))
     = Math_round (Fin 50 * Fin (42 / 10) * Fin 365)
   \<and> Math_round (Fin 50 * Fin (42 / 10) * Fin 365) = Fin 76650
   \<and> year1Revenue (buildYearlyProjection
       (c\<lparr>capacityKw := Fin 50, unitsPerKwDay := Fin (42 / 10), contractYears := 20,
          ppaTariff := Fin 5, capexPerKw := Fin 42000, upfrontPercent := Fin 20\<rparr>))
     = Fin 383250"
  by (simp add: buildYearlyProjection_def Let_def js_arith_defs)

theorem concrete_scenario_witness:
  "capexTotal (buildYearlyProjection default_config) = Fin 2100000
   \<and> upfront (buildYearlyProjection default_config) = Fin 420000
   \<and> year1Gen (buildYearlyProjection default_config) = Fin 76650
   \<and> year1Revenue (buildYearlyProjection default_config) = Fin 383250"
proof -
  have "default_config\<lparr>capacityKw := Fin 50, unitsPerKwDay := Fin (42 / 10),
          contractYears := 20, ppaTariff := Fin 5, capexPerKw := Fin 42000,
          upfrontPercent := Fin 20\<rparr> = default_config"
    by (simp add: default_config_def)
  with concrete_scenario [of default_config] show ?thesis
    by simp
qed

end
